theory Spec2Isabelle
  imports Complex_Main "HOL-Library.Stream"
begin

section \<open>NASimEnv: the environment orchestrator of the network attack simulator\<close>

text \<open>
  The source file is \<^verbatim>\<open>nasim/env/environment.py\<close>, class \<^verbatim>\<open>NASimEnv\<close>. Every
  method of the class that the properties below are about is embedded here under its
  own name (a leading underscore is dropped, since it is no identifier in HOL).

  The classes \<^verbatim>\<open>Network\<close>, \<^verbatim>\<open>State\<close> and \<^verbatim>\<open>Action\<close> and the constant
  \<^verbatim>\<open>INTERNET\<close> are imported by the source file from modules that are not part of
  the sources at hand. They are modelled from the specification (sections 3 and 4.1);
  each such definition says so.

  Python numbers (costs, values, probabilities, rewards) are modelled as \<open>real\<close>;
  exceptions are values of the type \<open>error\<close>; mutation of \<^verbatim>\<open>self\<close> is explicit
  state passing on the record \<open>NASimEnv\<close>; the State object is held in a store and
  the environment holds a reference to it, since the source hands out the object itself.
\<close>

subsection \<open>Addresses, actions, errors\<close>

type_synonym subnet = nat
type_synonym addr = "subnet \<times> nat"
type_synonym service = nat

text \<open>Modelled from the spec: the constant \<^verbatim>\<open>INTERNET\<close> of \<^verbatim>\<open>nasim.scenarios\<close>, the
  distinguished subnet that is the attacker's entry point.\<close>

definition INTERNET :: subnet where
  "INTERNET = 0"

datatype action_type = Scan | Exploit

text \<open>Modelled from the spec: the class \<^verbatim>\<open>Action\<close> (target address, cost, success
  probability, optional service identifier, scan/exploit discriminator).\<close>

record action =
  target :: addr
  cost :: real
  prob :: real
  service :: "service option"
  atype :: action_type

definition is_scan :: "action \<Rightarrow> bool" where
  "is_scan a = (atype a = Scan)"

datatype error = AssertionError | IndexError | NotImplementedError

subsection \<open>Network (modelled from the spec, section 4.1)\<close>

text \<open>Modelled from the spec: a host owned by the Network (operating system, running
  services, vulnerability indicator per service, value, sensitive flag, compromised
  status).\<close>

record host =
  h_os :: string
  h_services :: "(service \<times> bool) list"
  h_vulnerable :: "service \<Rightarrow> bool"
  h_value :: real
  h_sensitive :: bool
  h_compromised :: bool

text \<open>Modelled from the spec: the class \<^verbatim>\<open>Network\<close>: address space, host
  collection, subnet adjacency, firewall rule table, reachable set, and the minimal
  number of steps, a static figure of the scenario graph.\<close>

record network =
  n_address_space :: "addr list"
  n_hosts :: "addr \<rightharpoonup> host"
  n_topology :: "subnet \<Rightarrow> subnet \<Rightarrow> bool"
  n_firewall :: "subnet \<times> subnet \<times> service \<Rightarrow> bool"
  n_reachable :: "addr set"
  n_minimal_steps :: int

text \<open>Modelled from the spec: \<^verbatim>\<open>Network.reachable\<close>, true if the address is in the
  reachable set or is INTERNET.\<close>

definition reachable :: "network \<Rightarrow> addr \<Rightarrow> bool" where
  "reachable n a = (a \<in> n_reachable n \<or> fst a = INTERNET)"

text \<open>Modelled from the spec: \<^verbatim>\<open>Network.set_reachable\<close>, marks the address
  reachable.\<close>

definition set_reachable :: "network \<Rightarrow> addr \<Rightarrow> network" where
  "set_reachable n a = n\<lparr>n_reachable := insert a (n_reachable n)\<rparr>"

text \<open>Modelled from the spec: \<^verbatim>\<open>Network.subnets_connected\<close>, a pure topology query.\<close>

definition subnets_connected :: "network \<Rightarrow> subnet \<Rightarrow> subnet \<Rightarrow> bool" where
  "subnets_connected n a b = n_topology n a b"

text \<open>Modelled from the spec: \<^verbatim>\<open>Network.traffic_permitted\<close>, the firewall lookup. An
  action without a service is in no rule.\<close>

definition traffic_permitted :: "network \<Rightarrow> subnet \<Rightarrow> subnet \<Rightarrow> service option \<Rightarrow> bool" where
  "traffic_permitted n src dest svc =
     (case svc of None \<Rightarrow> False | Some s \<Rightarrow> n_firewall n (src, dest, s))"

text \<open>Modelled from the spec: \<^verbatim>\<open>Network.compromised\<close>.\<close>

definition compromised :: "network \<Rightarrow> addr \<Rightarrow> bool" where
  "compromised n a = (case n_hosts n a of None \<Rightarrow> False | Some h \<Rightarrow> h_compromised h)"

definition sensitive :: "network \<Rightarrow> addr \<Rightarrow> bool" where
  "sensitive n a = (case n_hosts n a of None \<Rightarrow> False | Some h \<Rightarrow> h_sensitive h)"

text \<open>Modelled from the spec: \<^verbatim>\<open>Network.get_sensitive_hosts\<close>, the addresses flagged
  sensitive in the scenario.\<close>

definition get_sensitive_hosts :: "network \<Rightarrow> addr list" where
  "get_sensitive_hosts n = filter (sensitive n) (n_address_space n)"

text \<open>Modelled from the spec: \<^verbatim>\<open>Network.get_total_sensitive_host_value\<close>.\<close>

definition host_value :: "network \<Rightarrow> addr \<Rightarrow> real" where
  "host_value n a = (case n_hosts n a of None \<Rightarrow> 0 | Some h \<Rightarrow> h_value h)"

definition get_total_sensitive_host_value :: "network \<Rightarrow> real" where
  "get_total_sensitive_host_value n = sum_list (map (host_value n) (get_sensitive_hosts n))"

text \<open>Modelled from the spec: \<^verbatim>\<open>Network.get_minimal_steps\<close>, a static query over the
  scenario graph; the figure is taken as given with the network.\<close>

definition get_minimal_steps :: "network \<Rightarrow> int" where
  "get_minimal_steps n = n_minimal_steps n"

text \<open>Modelled from the spec: \<^verbatim>\<open>Network.reset\<close>, restores all hosts to
  uncompromised and the reachable set to the initial frontier, the hosts of the subnets
  adjacent to INTERNET.\<close>

definition network_reset :: "network \<Rightarrow> network" where
  "network_reset n =
     n\<lparr>n_hosts := (\<lambda>a. map_option (\<lambda>h. h\<lparr>h_compromised := False\<rparr>) (n_hosts n a)),
       n_reachable := set (filter (\<lambda>a. n_topology n INTERNET (fst a)) (n_address_space n))\<rparr>"

text \<open>Modelled from the spec: \<^verbatim>\<open>Network.perform_action\<close>, which returns
  (success, value, services observed, os) and mutates the compromise status of the
  target host on success. A scan always reveals the services and the operating system;
  an exploit succeeds on a host vulnerable for the action's service, reveals only then,
  and earns the host's value when the host is compromised for the first time.\<close>

type_synonym outcome = "bool \<times> real \<times> (service \<times> bool) list \<times> string option"

definition perform_action :: "network \<Rightarrow> action \<Rightarrow> outcome \<times> network" where
  "perform_action n a =
     (case n_hosts n (target a) of
        None \<Rightarrow> ((False, 0, [], None), n)
      | Some h \<Rightarrow>
          if is_scan a then ((True, 0, h_services h, Some (h_os h)), n)
          else if (case service a of None \<Rightarrow> False | Some s \<Rightarrow> h_vulnerable h s)
          then ((True, if h_compromised h then 0 else h_value h, h_services h, Some (h_os h)),
                n\<lparr>n_hosts := (n_hosts n)(target a \<mapsto> h\<lparr>h_compromised := True\<rparr>)\<rparr>)
          else ((False, 0, [], None), n))"

subsection \<open>State (modelled from the spec, section 3)\<close>

text \<open>Modelled from the spec: the class \<^verbatim>\<open>State\<close>, one row per host with the
  compromised flag, the reachable flag and the observed services.\<close>

record host_row =
  r_compromised :: bool
  r_reachable :: bool
  r_services :: "(service \<times> bool) list"

type_synonym State = "(addr \<times> host_row) list"

definition observe_row :: "network \<Rightarrow> addr \<Rightarrow> host_row" where
  "observe_row n a =
     \<lparr>r_compromised = compromised n a, r_reachable = reachable n a,
      r_services = (case n_hosts n a of None \<Rightarrow> [] | Some h \<Rightarrow> h_services h)\<rparr>"

text \<open>Modelled from the spec: \<^verbatim>\<open>State.generate_initial_mdp_state\<close>, the encoding
  derived from the Network, with no service information.\<close>

definition generate_initial_mdp_state :: "network \<Rightarrow> State" where
  "generate_initial_mdp_state n =
     map (\<lambda>a. (a, \<lparr>r_compromised = compromised n a, r_reachable = reachable n a,
                   r_services = []\<rparr>)) (n_address_space n)"

text \<open>Modelled from the spec: \<^verbatim>\<open>State.update\<close>, which patches the row of one
  address in place from the Network.\<close>

definition State_update :: "State \<Rightarrow> network \<Rightarrow> addr \<Rightarrow> State" where
  "State_update st n a = map (\<lambda>(b, row). if b = a then (b, observe_row n a) else (b, row)) st"

subsection \<open>Scenario\<close>

text \<open>Modelled from the spec: the finished Scenario object, which exposes the address
  space, the data the Network is built from, and the ordered action space that
  \<^verbatim>\<open>Action.load_action_space\<close> derives from it.\<close>

record scenario =
  sc_address_space :: "addr list"
  sc_hosts :: "addr \<rightharpoonup> host"
  sc_topology :: "subnet \<Rightarrow> subnet \<Rightarrow> bool"
  sc_firewall :: "subnet \<times> subnet \<times> service \<Rightarrow> bool"
  sc_minimal_steps :: int
  sc_actions :: "action list"

text \<open>Modelled from the spec: the constructor \<^verbatim>\<open>Network(scenario)\<close>, a network in
  its initial condition.\<close>

definition Network :: "scenario \<Rightarrow> network" where
  "Network sc =
     network_reset \<lparr>n_address_space = sc_address_space sc, n_hosts = sc_hosts sc,
       n_topology = sc_topology sc, n_firewall = sc_firewall sc, n_reachable = {},
       n_minimal_steps = sc_minimal_steps sc\<rparr>"

definition load_action_space :: "scenario \<Rightarrow> action list" where
  "load_action_space sc = sc_actions sc"

subsection \<open>The environment (from the source)\<close>

type_synonym ref = nat

record NASimEnv =
  scenario :: scenario
  mode :: string
  network :: network
  address_space :: "addr list"
  action_space :: "action list"
  current_state :: ref
  compromised_subnets :: "subnet set"
  heap :: "ref \<rightharpoonup> State"

text \<open>The \<^verbatim>\<open>info\<close> dictionary of \<^verbatim>\<open>step\<close>. The key \<^verbatim>\<open>"os"\<close> is absent from the
  dictionary of a rejected step: \<open>info_os = None\<close>; otherwise it holds the value
  reported by the network, which may be Python's \<^verbatim>\<open>None\<close>.\<close>

record info =
  success :: bool
  services :: "(service \<times> bool) list"
  info_os :: "string option option"

type_synonym step_result = "ref \<times> real \<times> bool \<times> info"

definition env_modes :: "string list" where
  "env_modes = [''MDP'']"

text \<open>\<^verbatim>\<open>_generate_initial_state\<close>\<close>

definition generate_initial_state :: "string \<Rightarrow> network \<Rightarrow> error + State" where
  "generate_initial_state m n =
     (if m = ''MDP'' then Inr (generate_initial_mdp_state n)
      else if m = ''POMDP'' then Inl NotImplementedError
      else Inl NotImplementedError)"

text \<open>\<^verbatim>\<open>reset\<close>: returns the reference held in \<^verbatim>\<open>current_state\<close>.\<close>

definition reset :: "NASimEnv \<Rightarrow> ref \<times> NASimEnv" where
  "reset env =
     (let env1 = env\<lparr>compromised_subnets := {INTERNET}\<rparr>;
          env2 = env1\<lparr>network := network_reset (network env1)\<rparr>
      in (current_state env2, env2))"

text \<open>\<^verbatim>\<open>__init__\<close>. The State object is allocated in a store of its own at reference
  0. The placeholder \<^verbatim>\<open>None\<close> of \<^verbatim>\<open>compromised_subnets\<close> is overwritten by
  \<^verbatim>\<open>reset\<close> before anything reads it; it is the empty set here.\<close>

definition NASimEnv_init :: "scenario \<Rightarrow> string \<Rightarrow> error + NASimEnv" where
  "NASimEnv_init sc m =
     (if m \<notin> set env_modes then Inl AssertionError
      else
        let n = Network sc in
        case generate_initial_state m n of
          Inl e \<Rightarrow> Inl e
        | Inr s \<Rightarrow>
            Inr (snd (reset \<lparr>scenario = sc, mode = m, network = n,
                   address_space = sc_address_space sc,
                   action_space = load_action_space sc,
                   current_state = 0, compromised_subnets = {},
                   heap = [0 \<mapsto> s]\<rparr>)))"

text \<open>\<^verbatim>\<open>_action_traffic_permitted\<close>\<close>

definition action_traffic_permitted :: "NASimEnv \<Rightarrow> action \<Rightarrow> bool" where
  "action_traffic_permitted env a =
     (if \<not> reachable (network env) (target a) then False
      else if is_scan a then True
      else (\<exists>src \<in> compromised_subnets env.
              traffic_permitted (network env) src (fst (target a)) (service a)))"

text \<open>\<^verbatim>\<open>_update_reachable\<close>: the loop over the address space.\<close>

fun update_reachable_loop :: "network \<Rightarrow> subnet \<Rightarrow> addr list \<Rightarrow> network" where
  "update_reachable_loop n c [] = n"
| "update_reachable_loop n c (a # as) =
     (if reachable n a then update_reachable_loop n c as
      else if subnets_connected n c (fst a) then update_reachable_loop (set_reachable n a) c as
      else update_reachable_loop n c as)"

definition update_reachable :: "NASimEnv \<Rightarrow> addr \<Rightarrow> NASimEnv" where
  "update_reachable env compromised_host =
     env\<lparr>network := update_reachable_loop (network env) (fst compromised_host) (address_space env)\<rparr>"

text \<open>\<^verbatim>\<open>self.current_state.update(addr)\<close>: the object behind the reference is
  patched in place.\<close>

definition current_state_update :: "NASimEnv \<Rightarrow> addr \<Rightarrow> NASimEnv" where
  "current_state_update env a =
     (case heap env (current_state env) of
        None \<Rightarrow> env
      | Some st \<Rightarrow> env\<lparr>heap := (heap env)(current_state env \<mapsto> State_update st (network env) a)\<rparr>)"

text \<open>\<^verbatim>\<open>_update_state\<close>\<close>

definition update_state :: "NASimEnv \<Rightarrow> action \<Rightarrow> bool \<Rightarrow> NASimEnv" where
  "update_state env a succ =
     (if \<not> is_scan a \<and> succ then
        let env1 = env\<lparr>compromised_subnets := insert (fst (target a)) (compromised_subnets env)\<rparr>;
            env2 = update_reachable env1 (target a)
        in current_state_update env2 (target a)
      else env)"

text \<open>\<^verbatim>\<open>_is_goal\<close>: the loop over the sensitive hosts.\<close>

fun is_goal_loop :: "network \<Rightarrow> addr list \<Rightarrow> bool" where
  "is_goal_loop n [] = True"
| "is_goal_loop n (m # ms) = (if \<not> compromised n m then False else is_goal_loop n ms)"

definition is_goal :: "NASimEnv \<Rightarrow> bool" where
  "is_goal env = is_goal_loop (network env) (get_sensitive_hosts (network env))"

text \<open>The argument of \<^verbatim>\<open>step\<close>: an Action object, a Python int (a bool is one),
  or an object of any other type.\<close>

datatype arg = ActionArg action | IntArg int | OtherArg

text \<open>\<^verbatim>\<open>self.action_space[i]\<close> on a Python sequence: a negative index counts from
  the end, an index out of range raises.\<close>

definition py_index :: "'a list \<Rightarrow> int \<Rightarrow> error + 'a" where
  "py_index xs i =
     (if 0 \<le> i \<and> i < int (length xs) then Inr (xs ! nat i)
      else if - int (length xs) \<le> i \<and> i < 0 then Inr (xs ! nat (int (length xs) + i))
      else Inl IndexError)"

text \<open>The first two statements of \<^verbatim>\<open>step\<close>: the assertion on the argument's type and
  the coercion of an index.\<close>

definition coerce_action :: "NASimEnv \<Rightarrow> arg \<Rightarrow> error + action" where
  "coerce_action env x =
     (case x of
        OtherArg \<Rightarrow> Inl AssertionError
      | ActionArg a \<Rightarrow> Inr a
      | IntArg i \<Rightarrow> py_index (action_space env) i)"

definition rejected_info :: info where
  "rejected_info = \<lparr>success = False, services = [], info_os = None\<rparr>"

text \<open>\<^verbatim>\<open>step\<close>, in two parts: \<open>step_action\<close> is the body from the line
  \<^verbatim>\<open>info = {...}\<close> on, for the Action the argument stands for, and \<open>step\<close> puts the
  assertion and the coercion before it. The global random source of \<^verbatim>\<open>np.random\<close>
  is the stream of the values it will return; \<^verbatim>\<open>np.random.rand()\<close> takes its head.
  An exception leaves the environment as it was.\<close>

definition step_action :: "NASimEnv \<Rightarrow> action \<Rightarrow> real stream \<Rightarrow> step_result \<times> NASimEnv \<times> real stream" where
  "step_action env a rng =
     (if \<not> reachable (network env) (target a)
      then ((current_state env, 0 - cost a, False, rejected_info), env, rng)
      else if \<not> action_traffic_permitted env a
      then ((current_state env, 0 - cost a, False, rejected_info), env, rng)
      else if shd rng > prob a
      then ((current_state env, 0 - cost a, False, rejected_info), env, stl rng)
      else
        (case perform_action (network env) a of
           ((succ, val, svcs, os), n') \<Rightarrow>
             let env1 = env\<lparr>network := n'\<rparr>;
                 env2 = update_state env1 a succ;
                 done = is_goal env2;
                 reward = val - cost a
             in ((current_state env2, reward, done,
                  \<lparr>success = succ, services = svcs, info_os = Some os\<rparr>), env2, stl rng)))"

definition step :: "NASimEnv \<Rightarrow> arg \<Rightarrow> real stream \<Rightarrow> error + (step_result \<times> NASimEnv \<times> real stream)" where
  "step env x rng =
     (case coerce_action env x of
        Inl e \<Rightarrow> Inl e
      | Inr a \<Rightarrow> Inr (step_action env a rng))"

text \<open>\<^verbatim>\<open>get_best_possible_score\<close>\<close>

definition get_best_possible_score :: "NASimEnv \<Rightarrow> real" where
  "get_best_possible_score env =
     (let max_reward = get_total_sensitive_host_value (network env);
          max_reward = max_reward - real_of_int (get_minimal_steps (network env))
      in max_reward)"

subsection \<open>A caller of the environment\<close>

text \<open>A caller makes a sequence of \<^verbatim>\<open>step\<close> and \<^verbatim>\<open>reset\<close> calls on one
  environment. A call that raises leaves the environment and the random source as they
  were, and the caller goes on.\<close>

datatype call = Step arg | Reset

fun run :: "NASimEnv \<Rightarrow> real stream \<Rightarrow> call list \<Rightarrow> NASimEnv \<times> real stream" where
  "run env rng [] = (env, rng)"
| "run env rng (Reset # cs) = run (snd (reset env)) rng cs"
| "run env rng (Step x # cs) =
     (case step env x rng of
        Inl e \<Rightarrow> run env rng cs
      | Inr (r, env', rng') \<Rightarrow> run env' rng' cs)"

subsection \<open>A small scenario\<close>

text \<open>Three subnets in a chain behind the internet: INTERNET - 1 - 2 - 3, one host in
  each. The host of subnet 1 is the only sensitive one, with value 10. The firewall lets
  service 0 pass from the internet to subnet 1 and from subnet 1 to subnet 2.\<close>

definition host1 :: addr where
  "host1 = (1, 0)"

definition host2 :: addr where
  "host2 = (2, 0)"

definition host3 :: addr where
  "host3 = (3, 0)"

definition example_host :: "bool \<Rightarrow> real \<Rightarrow> host" where
  "example_host sens v =
     \<lparr>h_os = ''linux'', h_services = [(0, True)], h_vulnerable = (\<lambda>s. s = 0),
      h_value = v, h_sensitive = sens, h_compromised = False\<rparr>"

definition scan_host1 :: action where
  "scan_host1 = \<lparr>target = host1, cost = 0, prob = 1, service = None, atype = Scan\<rparr>"

definition exploit_host1 :: action where
  "exploit_host1 = \<lparr>target = host1, cost = 1, prob = 4/5, service = Some 0, atype = Exploit\<rparr>"

definition exploit_host2 :: action where
  "exploit_host2 = \<lparr>target = host2, cost = 1, prob = 1/2, service = Some 0, atype = Exploit\<rparr>"

definition exploit_host3 :: action where
  "exploit_host3 = \<lparr>target = host3, cost = 2, prob = 1, service = Some 0, atype = Exploit\<rparr>"

definition exploit_host1_service1 :: action where
  "exploit_host1_service1 =
     \<lparr>target = host1, cost = 1, prob = 1, service = Some 1, atype = Exploit\<rparr>"

definition example_actions :: "action list" where
  "example_actions =
     [scan_host1, exploit_host1, exploit_host2, exploit_host3, exploit_host1_service1]"

definition example_scenario :: scenario where
  "example_scenario =
     \<lparr>sc_address_space = [host1, host2, host3],
      sc_hosts = [host1 \<mapsto> example_host True 10, host2 \<mapsto> example_host False 0,
                  host3 \<mapsto> example_host False 0],
      sc_topology = (\<lambda>a b. (a, b) \<in> {(0, 1), (1, 0), (1, 2), (2, 1), (2, 3), (3, 2)}),
      sc_firewall = (\<lambda>r. r \<in> {(0, 1, 0), (1, 2, 0)}),
      sc_minimal_steps = 1,
      sc_actions = example_actions\<rparr>"

text \<open>The environment of the scenario after construction, written out.\<close>

definition example_network :: network where
  "example_network =
     \<lparr>n_address_space = [host1, host2, host3],
      n_hosts = (\<lambda>a. map_option (\<lambda>h. h\<lparr>h_compromised := False\<rparr>) (sc_hosts example_scenario a)),
      n_topology = sc_topology example_scenario,
      n_firewall = sc_firewall example_scenario,
      n_reachable = {host1},
      n_minimal_steps = 1\<rparr>"

definition example_env :: NASimEnv where
  "example_env =
     \<lparr>scenario = example_scenario, mode = ''MDP'', network = example_network,
      address_space = [host1, host2, host3], action_space = example_actions,
      current_state = 0, compromised_subnets = {INTERNET},
      heap = [0 \<mapsto> generate_initial_mdp_state example_network]\<rparr>"

text \<open>The environment after the exploit of the sensitive host (action 1) has passed its
  probability gate with the draw 1/2.\<close>

definition example_exploited :: NASimEnv where
  "example_exploited = fst (snd (step_action example_env exploit_host1 (sconst (1/2))))"

text \<open>The same environment over a network with no host at all.\<close>

definition empty_env :: NASimEnv where
  "empty_env = example_env\<lparr>network := example_network\<lparr>n_address_space := []\<rparr>\<rparr>"

section \<open>Properties\<close>

subsection \<open>Facts about the network and the loops\<close>

lemma network_reset_idem: "network_reset (network_reset n) = network_reset n"
  by (simp add: network_reset_def option.map_comp o_def)

lemma reachable_set_reachable: "reachable (set_reachable n a) b = (b = a \<or> reachable n b)"
  by (auto simp: reachable_def set_reachable_def)

lemma subnets_connected_set_reachable:
  "subnets_connected (set_reachable n a) c d = subnets_connected n c d"
  by (simp add: subnets_connected_def set_reachable_def)

lemma reachable_update_reachable_loop:
  "reachable (update_reachable_loop n c as) b =
     (reachable n b \<or> (b \<in> set as \<and> subnets_connected n c (fst b)))"
proof (induction as arbitrary: n)
  case Nil
  show ?case by simp
next
  case (Cons a as)
  show ?case
    by (auto simp: Cons.IH reachable_set_reachable subnets_connected_set_reachable)
qed

lemma update_reachable_loop_frame:
  "n_hosts (update_reachable_loop n c as) = n_hosts n \<and>
   n_topology (update_reachable_loop n c as) = n_topology n \<and>
   n_address_space (update_reachable_loop n c as) = n_address_space n \<and>
   n_firewall (update_reachable_loop n c as) = n_firewall n \<and>
   n_minimal_steps (update_reachable_loop n c as) = n_minimal_steps n"
  by (induction as arbitrary: n) (simp_all add: set_reachable_def)

lemma is_goal_loop_iff: "is_goal_loop n xs = (\<forall>a \<in> set xs. compromised n a)"
  by (induction xs) auto

lemma perform_action_frame:
  "n_reachable (snd (perform_action n a)) = n_reachable n \<and>
   n_topology (snd (perform_action n a)) = n_topology n \<and>
   n_address_space (snd (perform_action n a)) = n_address_space n \<and>
   n_firewall (snd (perform_action n a)) = n_firewall n \<and>
   n_minimal_steps (snd (perform_action n a)) = n_minimal_steps n"
  by (simp add: perform_action_def split: option.splits)

lemma perform_action_sensitive:
  "sensitive (snd (perform_action n a)) b = sensitive n b"
  by (simp add: perform_action_def sensitive_def split: option.splits)

lemma sensitive_cong:
  "n_hosts n' = n_hosts n \<Longrightarrow> sensitive n' b = sensitive n b"
  by (simp add: sensitive_def)

lemma compromised_cong:
  "n_hosts n' = n_hosts n \<Longrightarrow> compromised n' b = compromised n b"
  by (simp add: compromised_def)

lemma update_state_frame:
  "current_state (update_state env a s) = current_state env \<and>
   address_space (update_state env a s) = address_space env \<and>
   action_space (update_state env a s) = action_space env \<and>
   dom (heap (update_state env a s)) = dom (heap env) \<and>
   n_hosts (network (update_state env a s)) = n_hosts (network env) \<and>
   n_address_space (network (update_state env a s)) = n_address_space (network env) \<and>
   n_minimal_steps (network (update_state env a s)) = n_minimal_steps (network env)"
  by (auto simp: update_state_def update_reachable_def current_state_update_def Let_def
      update_reachable_loop_frame split: option.splits)

lemma update_state_subnets:
  "compromised_subnets (update_state env a s) =
     (if \<not> is_scan a \<and> s then insert (fst (target a)) (compromised_subnets env)
      else compromised_subnets env)"
  by (simp add: update_state_def update_reachable_def current_state_update_def Let_def
      split: option.splits)

lemma atp_iff:
  "action_traffic_permitted env a =
     (reachable (network env) (target a) \<and>
      (is_scan a \<or> (\<exists>src \<in> compromised_subnets env.
              traffic_permitted (network env) src (fst (target a)) (service a))))"
  by (simp add: action_traffic_permitted_def)

lemma step_action_frame:
  "fst (fst (step_action env a rng)) = current_state env \<and>
   current_state (fst (snd (step_action env a rng))) = current_state env \<and>
   dom (heap (fst (snd (step_action env a rng)))) = dom (heap env) \<and>
   compromised_subnets env \<subseteq> compromised_subnets (fst (snd (step_action env a rng)))"
  by (auto simp: step_action_def update_state_frame update_state_subnets Let_def
      split: prod.splits)

lemma step_Inr_iff:
  "(step env x rng = Inr r) = (\<exists>a. coerce_action env x = Inr a \<and> r = step_action env a rng)"
  by (auto simp: step_def split: sum.splits)

lemma get_sensitive_hosts_cong:
  "n_hosts n' = n_hosts n \<Longrightarrow> n_address_space n' = n_address_space n \<Longrightarrow>
   get_sensitive_hosts n' = get_sensitive_hosts n"
  by (simp add: get_sensitive_hosts_def sensitive_def [abs_def])

lemma network_reset_sensitive: "sensitive (network_reset n) b = sensitive n b"
  by (cases "n_hosts n b") (simp_all add: sensitive_def network_reset_def)

lemma get_sensitive_hosts_reset: "get_sensitive_hosts (network_reset n) = get_sensitive_hosts n"
proof -
  have "sensitive (network_reset n) = sensitive n"
    by (rule ext) (rule network_reset_sensitive)
  then show ?thesis by (simp add: get_sensitive_hosts_def network_reset_def)
qed

lemma get_sensitive_hosts_perform:
  "get_sensitive_hosts (snd (perform_action n a)) = get_sensitive_hosts n"
proof -
  have "sensitive (snd (perform_action n a)) = sensitive n"
    by (rule ext) (rule perform_action_sensitive)
  then show ?thesis by (simp add: get_sensitive_hosts_def perform_action_frame)
qed

lemma step_action_accepted:
  assumes "reachable (network env) (target a)" and "action_traffic_permitted env a"
    and "\<not> shd rng > prob a"
  shows "step_action env a rng =
     (let r = perform_action (network env) a;
          env2 = update_state (env\<lparr>network := snd r\<rparr>) a (fst (fst r))
      in ((current_state env2, fst (snd (fst r)) - cost a, is_goal env2,
           \<lparr>success = fst (fst r), services = fst (snd (snd (fst r))),
            info_os = Some (snd (snd (snd (fst r))))\<rparr>), env2, stl rng))"
  using assms by (simp add: step_action_def Let_def split: prod.splits)

lemma set_get_sensitive_hosts:
  "set (get_sensitive_hosts n) = {h \<in> set (n_address_space n). sensitive n h}"
  by (simp add: get_sensitive_hosts_def)

lemma is_goal_update_state: "is_goal (update_state env a s) = is_goal env"
proof -
  have "get_sensitive_hosts (network (update_state env a s)) = get_sensitive_hosts (network env)"
    by (rule get_sensitive_hosts_cong) (simp_all add: update_state_frame)
  moreover have "compromised (network (update_state env a s)) = compromised (network env)"
    by (rule ext, rule compromised_cong) (simp add: update_state_frame)
  ultimately show ?thesis by (simp add: is_goal_def is_goal_loop_iff)
qed

lemma run_frame:
  "current_state (fst (run env rng cs)) = current_state env \<and>
   dom (heap (fst (run env rng cs))) = dom (heap env)"
proof (induction env rng cs rule: run.induct)
  case (1 env rng)
  show ?case by simp
next
  case (2 env rng cs)
  then show ?case by (simp add: reset_def Let_def)
next
  case (3 env rng x cs)
  show ?case
  proof (cases "step env x rng")
    case (Inl e)
    with 3 show ?thesis by simp
  next
    case (Inr r)
    obtain res env' rng' where r: "r = (res, env', rng')" by (cases r) auto
    from Inr r obtain a where "step_action env a rng = (res, env', rng')"
      by (auto simp: step_Inr_iff)
    then have "env' = fst (snd (step_action env a rng))" by simp
    then have "current_state env' = current_state env \<and> dom (heap env') = dom (heap env)"
      by (simp add: step_action_frame)
    with 3 Inr r show ?thesis by simp
  qed
qed

lemma map_of_State_update:
  "map_of (State_update st n a) a = map_option (\<lambda>_. observe_row n a) (map_of st a)"
  by (induction st) (auto simp: State_update_def)

lemma map_of_State_update_other:
  "b \<noteq> a \<Longrightarrow> map_of (State_update st n a) b = map_of st b"
  by (induction st) (auto simp: State_update_def)

lemma map_of_generate_initial_mdp_state:
  "map_of (generate_initial_mdp_state n) a =
     (if a \<in> set (n_address_space n)
      then Some \<lparr>r_compromised = compromised n a, r_reachable = reachable n a, r_services = []\<rparr>
      else None)"
  by (simp add: generate_initial_mdp_state_def map_of_map_restrict restrict_map_def)

lemma compromised_network_reset: "\<not> compromised (network_reset n) a"
  by (cases "n_hosts n a") (simp_all add: compromised_def network_reset_def)

subsection \<open>The small scenario, evaluated\<close>

lemmas host_defs = host1_def host2_def host3_def

lemma host_distinct:
  "host1 \<noteq> host2" "host1 \<noteq> host3" "host2 \<noteq> host3"
  "host2 \<noteq> host1" "host3 \<noteq> host1" "host3 \<noteq> host2"
  by (simp_all add: host_defs)

lemma example_network_eq: "Network example_scenario = example_network"
  by (simp add: Network_def network_reset_def example_network_def example_scenario_def
      INTERNET_def host_defs)

lemma example_network_reset: "network_reset example_network = example_network"
  unfolding example_network_eq [symmetric] Network_def by (rule network_reset_idem)

lemma example_env_init: "NASimEnv_init example_scenario ''MDP'' = Inr example_env"
  by (simp add: NASimEnv_init_def env_modes_def generate_initial_state_def reset_def Let_def
      example_network_eq example_network_reset example_env_def load_action_space_def)
     (simp add: example_scenario_def)

lemma example_network_env: "network example_env = example_network"
  by (simp add: example_env_def)

lemma example_coerce_1: "coerce_action example_env (IntArg 1) = Inr exploit_host1"
  by (simp add: coerce_action_def py_index_def example_env_def example_actions_def)

lemma example_reachable_1: "reachable (network example_env) (target exploit_host1)"
  by (simp add: reachable_def example_env_def example_network_def exploit_host1_def)

lemma example_permitted_1: "action_traffic_permitted example_env exploit_host1"
  by (simp add: action_traffic_permitted_def reachable_def traffic_permitted_def is_scan_def
      example_env_def example_network_def example_scenario_def exploit_host1_def INTERNET_def
      host_defs)

lemma example_draw_1: "\<not> shd (sconst (1/2 :: real)) > prob exploit_host1"
  by (simp add: exploit_host1_def)

lemma example_perform_1:
  "fst (perform_action example_network exploit_host1) = (True, 10, [(0, True)], Some ''linux'')"
  by (simp add: perform_action_def is_scan_def exploit_host1_def example_network_def
      example_scenario_def example_host_def host_distinct)

lemma example_perform_hosts:
  "n_hosts (snd (perform_action example_network exploit_host1)) host1 =
     Some ((example_host True 10)\<lparr>h_compromised := True\<rparr>)"
  by (simp add: perform_action_def is_scan_def exploit_host1_def example_network_def
      example_scenario_def example_host_def host_distinct)

lemma example_sensitive_hosts: "get_sensitive_hosts example_network = [host1]"
  by (simp add: get_sensitive_hosts_def sensitive_def example_network_def example_scenario_def
      example_host_def host_defs)

lemma example_exploited_eq:
  "example_exploited =
     update_state (example_env\<lparr>network := snd (perform_action example_network exploit_host1)\<rparr>)
       exploit_host1 True"
  unfolding example_exploited_def
  using step_action_accepted [OF example_reachable_1 example_permitted_1 example_draw_1]
  by (simp add: Let_def example_network_env example_perform_1)

lemma example_exploited_hosts:
  "n_hosts (network example_exploited) host1 =
     Some ((example_host True 10)\<lparr>h_compromised := True\<rparr>)"
  unfolding example_exploited_eq by (simp add: update_state_frame example_perform_hosts)

lemma example_exploited_goal: "is_goal example_exploited"
proof -
  let ?n = "snd (perform_action example_network exploit_host1)"
  have cr: "compromised ?n host1"
    by (simp add: compromised_def example_perform_hosts)
  have gs: "get_sensitive_hosts ?n = [host1]"
    by (simp only: get_sensitive_hosts_perform example_sensitive_hosts)
  have "is_goal example_exploited = is_goal (example_env\<lparr>network := ?n\<rparr>)"
    unfolding example_exploited_eq by (rule is_goal_update_state)
  also have "\<dots>"
    using cr by (simp add: is_goal_def gs)
  finally show ?thesis .
qed

lemma example_exploited_state: "current_state example_exploited = 0"
  unfolding example_exploited_eq by (simp add: update_state_frame example_env_def)

lemma example_step_exploit:
  "step example_env (IntArg 1) (sconst (1/2)) =
     Inr ((0, 9, True, \<lparr>success = True, services = [(0, True)], info_os = Some (Some ''linux'')\<rparr>),
          example_exploited, sconst (1/2))"
proof -
  have "step_action example_env exploit_host1 (sconst (1/2)) =
     ((0, 9, True, \<lparr>success = True, services = [(0, True)], info_os = Some (Some ''linux'')\<rparr>),
          example_exploited, sconst (1/2))"
    using step_action_accepted [OF example_reachable_1 example_permitted_1 example_draw_1]
      example_exploited_goal example_exploited_state
    by (simp add: Let_def example_network_env example_perform_1 example_exploited_eq [symmetric])
       (simp add: exploit_host1_def)
  then show ?thesis by (simp add: step_def example_coerce_1)
qed

lemma example_exploited_heap:
  "heap example_exploited 0 =
     Some (State_update (generate_initial_mdp_state example_network)
            (network example_exploited) host1)"
  unfolding example_exploited_eq
  by (simp add: update_state_def update_reachable_def current_state_update_def Let_def is_scan_def
      exploit_host1_def example_env_def)

lemma example_exploited_address_space:
  "n_address_space (network example_exploited) = [host1, host2, host3]"
  unfolding example_exploited_eq
  by (simp add: update_state_frame perform_action_frame example_network_def)

lemma example_step_scan:
  "step example_env (IntArg 0) (sconst (1/2)) =
     Inr ((0, 0, False, \<lparr>success = True, services = [(0, True)], info_os = Some (Some ''linux'')\<rparr>),
          example_env, sconst (1/2))"
proof -
  have c: "coerce_action example_env (IntArg 0) = Inr scan_host1"
    by (simp add: coerce_action_def py_index_def example_env_def example_actions_def)
  have re: "reachable (network example_env) (target scan_host1)"
    using example_reachable_1 by (simp add: scan_host1_def exploit_host1_def)
  have pe: "action_traffic_permitted example_env scan_host1"
    using re by (simp add: action_traffic_permitted_def is_scan_def scan_host1_def)
  have p: "\<not> shd (sconst (1/2 :: real)) > prob scan_host1" by (simp add: scan_host1_def)
  have r: "perform_action (network example_env) scan_host1 =
             ((True, 0, [(0, True)], Some ''linux''), network example_env)"
    by (simp add: perform_action_def is_scan_def scan_host1_def example_env_def example_network_def
        example_scenario_def example_host_def)
  have g: "\<not> is_goal example_env"
    by (simp add: is_goal_def example_network_env example_sensitive_hosts)
       (simp add: compromised_def example_network_def example_scenario_def example_host_def)
  have "step_action example_env scan_host1 (sconst (1/2)) =
     ((0, 0, False, \<lparr>success = True, services = [(0, True)], info_os = Some (Some ''linux'')\<rparr>),
          example_env, sconst (1/2))"
    using step_action_accepted [OF re pe p] g
    by (simp add: Let_def r update_state_def is_scan_def)
       (simp add: scan_host1_def example_env_def)
  with c show ?thesis by (simp add: step_def)
qed

subsection \<open>The claims\<close>

text \<open>
  Claim C1. A step is rejected when the target of the action is not reachable, or, for an
  action that is no scan, when no compromised subnet has firewall permission for the
  action's service to the target's subnet, or when the random draw exceeds the action's
  success probability. The checks run in this order, and the draw is made only when the
  first two have passed: the random source is advanced by a rejection at the third check
  and left alone by a rejection at the first or second. A rejected step returns the
  reference of the current State, the reward \<open>- cost\<close>, \<open>done = False\<close> and the info
  \<open>{success: False, services: {}}\<close>, and the environment (network, compromised subnets,
  State store) is returned unchanged.
\<close>

theorem C1_rejected_step:
  assumes "coerce_action env x = Inr a"
    and "\<not> reachable (network env) (target a)
       \<or> (\<not> is_scan a \<and> (\<forall>src \<in> compromised_subnets env.
              \<not> traffic_permitted (network env) src (fst (target a)) (service a)))
       \<or> shd rng > prob a"
  shows "step env x rng =
     Inr ((current_state env, - cost a, False,
           \<lparr>success = False, services = [], info_os = None\<rparr>), env,
          if reachable (network env) (target a) \<and>
             (is_scan a \<or> (\<exists>src \<in> compromised_subnets env.
                traffic_permitted (network env) src (fst (target a)) (service a)))
          then stl rng else rng)"
  using assms by (auto simp: step_def step_action_def atp_iff rejected_info_def)

text \<open>In the small scenario the exploit of host 1 passes the first two checks and fails
  the draw 9/10 against its probability 4/5; the draw is consumed.\<close>

theorem C1_rejected_step_witness:
  "coerce_action example_env (IntArg 1) = Inr exploit_host1 \<and>
   shd (9/10 ## sconst (1/2)) > prob exploit_host1 \<and>
   step example_env (IntArg 1) (9/10 ## sconst (1/2)) =
     Inr ((0, -1, False, \<lparr>success = False, services = [], info_os = None\<rparr>),
          example_env, sconst (1/2))"
proof -
  have d: "shd (9/10 ## sconst (1/2 :: real)) > prob exploit_host1"
    by (simp add: exploit_host1_def)
  then have h: "\<not> reachable (network example_env) (target exploit_host1)
       \<or> (\<not> is_scan exploit_host1 \<and> (\<forall>src \<in> compromised_subnets example_env.
              \<not> traffic_permitted (network example_env) src (fst (target exploit_host1))
                   (service exploit_host1)))
       \<or> shd (9/10 ## sconst (1/2)) > prob exploit_host1"
    by blast
  have c: "current_state example_env = 0" "cost exploit_host1 = 1"
    by (simp_all add: example_env_def exploit_host1_def)
  from C1_rejected_step [OF example_coerce_1 h] example_reachable_1
    example_permitted_1 [unfolded atp_iff] d
  show ?thesis by (simp add: example_coerce_1 c)
qed

text \<open>
  Claim C2 says that \<open>reset\<close>, at any point of the environment's life, sets the
  compromised-subnet set to \<open>{INTERNET}\<close>, resets the network and returns the initial
  State computed afresh, with no host compromised. The source does the first two and
  then returns the reference held in \<open>current_state\<close> with the store as it was: the
  State is not computed again. In the small scenario, after the exploit of host 1 has
  succeeded, \<open>reset\<close> returns a State whose row of host 1 still has the compromised
  flag, whereas the network after the reset has no compromised host and the initial
  State computed from it has the flag cleared.
\<close>

theorem C2_reset_returns_patched_state:
  "step example_env (IntArg 1) (sconst (1/2)) =
     Inr ((0, 9, True, \<lparr>success = True, services = [(0, True)], info_os = Some (Some ''linux'')\<rparr>),
          example_exploited, sconst (1/2)) \<and>
   fst (reset example_exploited) = current_state example_exploited \<and>
   compromised_subnets (snd (reset example_exploited)) = {INTERNET} \<and>
   network (snd (reset example_exploited)) = network_reset (network example_exploited) \<and>
   heap (snd (reset example_exploited)) = heap example_exploited \<and>
   \<not> compromised (network (snd (reset example_exploited))) host1 \<and>
   map_option r_compromised
     (map_of (generate_initial_mdp_state (network (snd (reset example_exploited)))) host1) =
     Some False \<and>
   map_option (\<lambda>st. map_option r_compromised (map_of st host1))
     (heap (snd (reset example_exploited)) (fst (reset example_exploited))) = Some (Some True)"
proof -
  note cs = example_exploited_state
  have r: "fst (reset example_exploited) = 0"
    "heap (snd (reset example_exploited)) = heap example_exploited"
    "network (snd (reset example_exploited)) = network_reset (network example_exploited)"
    "compromised_subnets (snd (reset example_exploited)) = {INTERNET}"
    by (simp_all add: reset_def Let_def cs)
  have c: "compromised (network example_exploited) host1"
    by (simp add: compromised_def example_exploited_hosts)
  have a: "n_address_space (network_reset (network example_exploited)) = [host1, host2, host3]"
    by (simp add: network_reset_def example_exploited_address_space)
  have i: "map_of (generate_initial_mdp_state example_network) host1 \<noteq> None"
    by (simp add: map_of_generate_initial_mdp_state example_network_def)
  have "map_option (\<lambda>st. map_option r_compromised (map_of st host1))
     (heap example_exploited 0) = Some (Some True)"
    using i c by (auto simp: example_exploited_heap map_of_State_update observe_row_def)
  moreover have "map_option r_compromised
     (map_of (generate_initial_mdp_state (network_reset (network example_exploited))) host1) =
     Some False"
    by (simp add: map_of_generate_initial_mdp_state a compromised_network_reset)
  ultimately show ?thesis
    using example_step_exploit by (simp add: r cs compromised_network_reset)
qed

text \<open>
  Claim C3. A step that is not rejected returns \<open>done = True\<close> exactly when every
  address of the address space flagged sensitive is compromised in the network at the
  end of the step. The goal check is a function of the network's sensitive hosts and
  their compromised status alone. With no sensitive host the goal holds, in particular
  right after \<open>reset\<close>.
\<close>

theorem C3_goal:
  "(coerce_action env x = Inr a \<and> reachable (network env) (target a) \<and>
    action_traffic_permitted env a \<and> \<not> shd rng > prob a \<and>
    step env x rng = Inr ((obs, reward, done, nfo), env', rng')
    \<longrightarrow> (done \<longleftrightarrow> (\<forall>h \<in> set (n_address_space (network env)).
                      sensitive (network env) h \<longrightarrow> compromised (network env') h))) \<and>
   (is_goal env \<longleftrightarrow> (\<forall>h \<in> set (get_sensitive_hosts (network env)). compromised (network env) h)) \<and>
   (get_sensitive_hosts (network env) = [] \<longrightarrow> is_goal (snd (reset env)))"
proof (intro conjI impI)
  assume h: "coerce_action env x = Inr a \<and> reachable (network env) (target a) \<and>
    action_traffic_permitted env a \<and> \<not> shd rng > prob a \<and>
    step env x rng = Inr ((obs, reward, done, nfo), env', rng')"
  define r where "r = perform_action (network env) a"
  define env2 where "env2 = update_state (env\<lparr>network := snd r\<rparr>) a (fst (fst r))"
  from h have c: "coerce_action env x = Inr a"
    and g: "reachable (network env) (target a)" "action_traffic_permitted env a"
      "\<not> shd rng > prob a"
    and s: "step env x rng = Inr ((obs, reward, done, nfo), env', rng')"
    by blast+
  from c s have "step_action env a rng = ((obs, reward, done, nfo), env', rng')"
    by (simp add: step_def)
  with g have e: "env' = env2" and d: "done = is_goal env2"
    by (auto simp: step_action_accepted Let_def r_def env2_def)
  have nh: "n_hosts (network env2) = n_hosts (snd r)"
    and na: "n_address_space (network env2) = n_address_space (snd r)"
    by (simp_all add: env2_def update_state_frame)
  have "get_sensitive_hosts (network env2) = get_sensitive_hosts (snd r)"
    using nh na by (rule get_sensitive_hosts_cong)
  also have "\<dots> = get_sensitive_hosts (network env)"
    by (simp add: r_def get_sensitive_hosts_perform)
  finally have "is_goal env2 = (\<forall>h \<in> set (get_sensitive_hosts (network env)). compromised (network env2) h)"
    by (simp add: is_goal_def is_goal_loop_iff)
  with d e show "done \<longleftrightarrow> (\<forall>h \<in> set (n_address_space (network env)).
                      sensitive (network env) h \<longrightarrow> compromised (network env') h)"
    by (auto simp: set_get_sensitive_hosts)
next
  show "is_goal env \<longleftrightarrow> (\<forall>h \<in> set (get_sensitive_hosts (network env)). compromised (network env) h)"
    by (simp add: is_goal_def is_goal_loop_iff)
next
  assume "get_sensitive_hosts (network env) = []"
  then show "is_goal (snd (reset env))"
    by (simp add: is_goal_def reset_def Let_def get_sensitive_hosts_reset)
qed

text \<open>In the small scenario the successful exploit of the only sensitive host ends the
  episode; an environment with an empty address space is at its goal after \<open>reset\<close>.\<close>

theorem C3_goal_witness:
  "step example_env (IntArg 1) (sconst (1/2)) =
     Inr ((0, 9, True, \<lparr>success = True, services = [(0, True)], info_os = Some (Some ''linux'')\<rparr>),
          example_exploited, sconst (1/2)) \<and>
   host1 \<in> set (n_address_space (network example_env)) \<and>
   sensitive (network example_env) host1 \<and>
   compromised (network example_exploited) host1 \<and>
   get_sensitive_hosts (network empty_env) = [] \<and>
   is_goal (snd (reset empty_env))"
proof -
  have e: "get_sensitive_hosts (network empty_env) = []"
    by (simp add: empty_env_def get_sensitive_hosts_def)
  have a: "host1 \<in> set (n_address_space (network example_env))"
    by (simp add: example_env_def example_network_def)
  have s: "sensitive (network example_env) host1"
    by (simp add: sensitive_def example_env_def example_network_def example_scenario_def
        example_host_def host_distinct)
  from C3_goal [of example_env "IntArg 1" exploit_host1 "sconst (1/2)" 0 9 True
      "\<lparr>success = True, services = [(0, True)], info_os = Some (Some ''linux'')\<rparr>"
      example_exploited "sconst (1/2)"]
    example_coerce_1 example_reachable_1 example_permitted_1 example_draw_1 example_step_exploit
  have "\<forall>h \<in> set (n_address_space (network example_env)).
      sensitive (network example_env) h \<longrightarrow> compromised (network example_exploited) h"
    by blast
  with a s have c: "compromised (network example_exploited) host1" by blast
  from C3_goal [of empty_env] e have "is_goal (snd (reset empty_env))"
    by blast
  with c a s e example_step_exploit show ?thesis by blast
qed

text \<open>
  Claim C4. After a successful exploit on a host of subnet \<open>S\<close>, an address is reachable
  exactly when it was reachable before or it belongs to the address space and its subnet
  is connected to \<open>S\<close> in the topology. So every address not yet reachable whose subnet
  is adjacent to \<open>S\<close> becomes reachable, no other address changes, and the firewall
  plays no part; a subnet two hops away stays unreachable.
\<close>

theorem C4_update_reachable:
  assumes "coerce_action env x = Inr a" and "reachable (network env) (target a)"
    and "action_traffic_permitted env a" and "\<not> shd rng > prob a"
    and "\<not> is_scan a" and "fst (fst (perform_action (network env) a))"
    and "step env x rng = Inr (res, env', rng')"
  shows "reachable (network env') b \<longleftrightarrow>
           reachable (network env) b \<or>
           (b \<in> set (address_space env) \<and>
            subnets_connected (network env) (fst (target a)) (fst b))"
proof -
  define r where "r = perform_action (network env) a"
  from assms have "step_action env a rng = (res, env', rng')"
    by (simp add: step_def)
  with assms have e: "env' = update_state (env\<lparr>network := snd r\<rparr>) a True"
    by (simp add: step_action_accepted Let_def r_def)
  have nr: "n_reachable (snd r) = n_reachable (network env)"
    and nt: "n_topology (snd r) = n_topology (network env)"
    by (simp_all add: r_def perform_action_frame)
  have "network env' = update_reachable_loop (snd r) (fst (target a)) (address_space env)"
    using assms(5) by (simp add: e update_state_def update_reachable_def
        current_state_update_def Let_def split: option.splits)
  then show ?thesis
    by (simp add: reachable_update_reachable_loop)
       (simp add: reachable_def subnets_connected_def nr nt)
qed

text \<open>In the small scenario the exploit in subnet 1 makes the host of subnet 2 reachable
  and leaves the host of subnet 3, two hops away, unreachable.\<close>

theorem C4_update_reachable_witness:
  "step example_env (IntArg 1) (sconst (1/2)) =
     Inr ((0, 9, True, \<lparr>success = True, services = [(0, True)], info_os = Some (Some ''linux'')\<rparr>),
          example_exploited, sconst (1/2)) \<and>
   \<not> reachable (network example_env) host2 \<and>
   reachable (network example_exploited) host2 \<and>
   \<not> reachable (network example_env) host3 \<and>
   \<not> reachable (network example_exploited) host3"
proof -
  have s: "fst (fst (perform_action (network example_env) exploit_host1))"
    by (simp add: example_network_env example_perform_1)
  have i: "\<not> is_scan exploit_host1" by (simp add: is_scan_def exploit_host1_def)
  note r = C4_update_reachable [OF example_coerce_1 example_reachable_1 example_permitted_1
      example_draw_1 i s example_step_exploit]
  have b2: "\<not> reachable (network example_env) host2"
    and b3: "\<not> reachable (network example_env) host3"
    by (simp_all add: reachable_def example_env_def example_network_def host_defs INTERNET_def)
  have c2: "subnets_connected (network example_env) (fst (target exploit_host1)) (fst host2)"
    and c3: "\<not> subnets_connected (network example_env) (fst (target exploit_host1)) (fst host3)"
    by (simp_all add: subnets_connected_def example_env_def example_network_def
        example_scenario_def exploit_host1_def host_defs)
  have a: "host2 \<in> set (address_space example_env)" by (simp add: example_env_def)
  from r [of host2] r [of host3] b2 b3 c2 c3 a example_step_exploit
  show ?thesis by blast
qed

text \<open>
  Claim C5. \<open>reset\<close> sets the compromised-subnet set to exactly \<open>{INTERNET}\<close>; a step
  leaves the set as it is or adds one subnet and never removes a member; so after
  \<open>reset\<close> and any sequence of \<open>step\<close> and \<open>reset\<close> calls the set contains
  \<open>INTERNET\<close>.
\<close>

theorem C5_internet_compromised:
  "compromised_subnets (snd (reset env)) = {INTERNET} \<and>
   (step env x rng = Inr (res, env', rng') \<longrightarrow>
      compromised_subnets env \<subseteq> compromised_subnets env' \<and>
      (compromised_subnets env' = compromised_subnets env \<or>
       (\<exists>s. compromised_subnets env' = insert s (compromised_subnets env)))) \<and>
   INTERNET \<in> compromised_subnets (fst (run (snd (reset env)) rng cs))"
proof (intro conjI impI)
  show "compromised_subnets (snd (reset env)) = {INTERNET}"
    by (simp add: reset_def Let_def)
next
  assume "step env x rng = Inr (res, env', rng')"
  then obtain a where "step_action env a rng = (res, env', rng')"
    by (auto simp: step_Inr_iff)
  then have "env' = fst (snd (step_action env a rng))" by simp
  then show "compromised_subnets env \<subseteq> compromised_subnets env'"
    by (simp add: step_action_frame)
next
  assume "step env x rng = Inr (res, env', rng')"
  then obtain a where "step_action env a rng = (res, env', rng')"
    by (auto simp: step_Inr_iff)
  then have "env' = fst (snd (step_action env a rng))" by simp
  then show "compromised_subnets env' = compromised_subnets env \<or>
       (\<exists>s. compromised_subnets env' = insert s (compromised_subnets env))"
    by (auto simp: step_action_def update_state_subnets Let_def split: prod.splits if_splits)
next
  have inv: "INTERNET \<in> compromised_subnets e \<Longrightarrow>
             INTERNET \<in> compromised_subnets (fst (run e g cs))" for e g
  proof (induction e g cs rule: run.induct)
    case (1 env rng)
    then show ?case by simp
  next
    case (2 env rng cs)
    then show ?case by (simp add: reset_def Let_def)
  next
    case (3 env rng x cs)
    show ?case
    proof (cases "step env x rng")
      case (Inl e)
      with 3 show ?thesis by simp
    next
      case (Inr r)
      obtain res env' rng' where r: "r = (res, env', rng')" by (cases r) auto
      from Inr r obtain a where "step_action env a rng = (res, env', rng')"
        by (auto simp: step_Inr_iff)
      then have "env' = fst (snd (step_action env a rng))" by simp
      then have "compromised_subnets env \<subseteq> compromised_subnets env'"
        by (simp add: step_action_frame)
      with "3.prems" have "INTERNET \<in> compromised_subnets env'" by auto
      with 3 Inr r show ?thesis by simp
    qed
  qed
  show "INTERNET \<in> compromised_subnets (fst (run (snd (reset env)) rng cs))"
    by (rule inv) (simp add: reset_def Let_def)
qed

text \<open>In the small scenario, for the successful exploit and for a sequence of five calls.\<close>

theorem C5_internet_compromised_witness:
  "step example_env (IntArg 1) (sconst (1/2)) =
     Inr ((0, 9, True, \<lparr>success = True, services = [(0, True)], info_os = Some (Some ''linux'')\<rparr>),
          example_exploited, sconst (1/2)) \<and>
   compromised_subnets example_env \<subseteq> compromised_subnets example_exploited \<and>
   compromised_subnets (snd (reset example_env)) = {INTERNET} \<and>
   INTERNET \<in> compromised_subnets (fst (run (snd (reset example_env)) (sconst (1/2))
       [Step (IntArg 0), Step (IntArg 1), Step OtherArg, Reset, Step (IntArg 2)]))"
  using C5_internet_compromised [of example_env "IntArg 1" "sconst (1/2)"
      "(0, 9, True, \<lparr>success = True, services = [(0, True)], info_os = Some (Some ''linux'')\<rparr>)"
      example_exploited "sconst (1/2)"
      "[Step (IntArg 0), Step (IntArg 1), Step OtherArg, Reset, Step (IntArg 2)]"]
    example_step_exploit
  by blast

text \<open>
  Claim C6. For a step that has passed the three gates, with
  \<open>(succ, val, svcs, os)\<close> the outcome reported by \<open>perform_action\<close> and \<open>n'\<close> the
  network it leaves: the reward is \<open>val - cost\<close> and the info carries \<open>succ\<close>,
  \<open>svcs\<close> and \<open>os\<close>. When the action is an exploit and \<open>succ\<close> holds, the target's
  subnet is added to the compromised subnets; reachability is propagated: an address is
  reachable afterwards exactly when it was reachable in \<open>n'\<close> or it belongs to the address
  space and its subnet is connected to the target's subnet, and the hosts are those of
  \<open>n'\<close>; and the State object is patched at the target address: its row there is the
  one observed from the network after the propagation, every other row is as before.
  For a scan, and for an exploit that did not succeed, the compromised subnets and the
  State store are left as they were and the network is \<open>n'\<close>.
\<close>

theorem C6_update_only_on_successful_exploit:
  assumes "coerce_action env x = Inr a" and "reachable (network env) (target a)"
    and "action_traffic_permitted env a" and "\<not> shd rng > prob a"
    and "perform_action (network env) a = ((succ, val, svcs, os), n')"
    and "step env x rng = Inr ((obs, reward, done, nfo), env', rng')"
  shows "reward = val - cost a \<and>
     nfo = \<lparr>success = succ, services = svcs, info_os = Some os\<rparr> \<and>
     (if \<not> is_scan a \<and> succ
      then compromised_subnets env' = insert (fst (target a)) (compromised_subnets env) \<and>
           network env' = update_reachable_loop n' (fst (target a)) (address_space env) \<and>
           (\<forall>b. reachable (network env') b \<longleftrightarrow>
                  reachable n' b \<or>
                  (b \<in> set (address_space env) \<and>
                   subnets_connected n' (fst (target a)) (fst b))) \<and>
           n_hosts (network env') = n_hosts n' \<and>
           heap env' =
             (case heap env (current_state env) of
                None \<Rightarrow> heap env
              | Some st \<Rightarrow>
                  (heap env)(current_state env \<mapsto> State_update st (network env') (target a))) \<and>
           (\<forall>st b. heap env (current_state env) = Some st \<longrightarrow>
              map_option (\<lambda>st'. map_of st' b) (heap env' (current_state env)) =
                Some (if b = target a
                      then map_option (\<lambda>_. observe_row (network env') (target a)) (map_of st b)
                      else map_of st b))
      else compromised_subnets env' = compromised_subnets env \<and>
           heap env' = heap env \<and> network env' = n')"
proof -
  from assms(1,6) have "step_action env a rng = ((obs, reward, done, nfo), env', rng')"
    by (simp add: step_def)
  with assms(2-5) have e: "env' = update_state (env\<lparr>network := n'\<rparr>) a succ"
    and r: "reward = val - cost a"
    and i: "nfo = \<lparr>success = succ, services = svcs, info_os = Some os\<rparr>"
    by (auto simp: step_action_accepted Let_def)
  show ?thesis
  proof (cases "\<not> is_scan a \<and> succ")
    case True
    have n: "network env' = update_reachable_loop n' (fst (target a)) (address_space env)"
      and c: "compromised_subnets env' = insert (fst (target a)) (compromised_subnets env)"
      and h: "heap env' =
             (case heap env (current_state env) of
                None \<Rightarrow> heap env
              | Some st \<Rightarrow>
                  (heap env)(current_state env \<mapsto> State_update st (network env') (target a)))"
      using True
      by (simp_all add: e update_state_def update_reachable_def current_state_update_def
          Let_def split: option.splits)
    have p: "\<forall>b. reachable (network env') b \<longleftrightarrow>
                  reachable n' b \<or>
                  (b \<in> set (address_space env) \<and>
                   subnets_connected n' (fst (target a)) (fst b))"
      by (simp add: n reachable_update_reachable_loop)
    have f: "n_hosts (network env') = n_hosts n'"
      by (simp add: n update_reachable_loop_frame)
    have s: "\<forall>st b. heap env (current_state env) = Some st \<longrightarrow>
              map_option (\<lambda>st'. map_of st' b) (heap env' (current_state env)) =
                Some (if b = target a
                      then map_option (\<lambda>_. observe_row (network env') (target a)) (map_of st b)
                      else map_of st b)"
      by (auto simp: h map_of_State_update map_of_State_update_other)
    from True r i c n p f h s show ?thesis by simp
  next
    case False
    then show ?thesis
      by (auto simp: r i e update_state_def)
  qed
qed

text \<open>In the small scenario the successful exploit adds subnet 1 to the compromised
  subnets, makes the host of subnet 2 reachable, leaves the host of subnet 3 unreachable
  and sets the compromised flag of host 1 in the State; the scan returns what the network
  reports and leaves the environment as it was.\<close>

theorem C6_update_only_on_successful_exploit_witness:
  "step example_env (IntArg 1) (sconst (1/2)) =
     Inr ((0, 9, True, \<lparr>success = True, services = [(0, True)], info_os = Some (Some ''linux'')\<rparr>),
          example_exploited, sconst (1/2)) \<and>
   compromised_subnets example_exploited = {1, INTERNET} \<and>
   \<not> reachable (network example_env) host2 \<and>
   reachable (network example_exploited) host2 \<and>
   \<not> reachable (network example_exploited) host3 \<and>
   map_option (\<lambda>st. map_option r_compromised (map_of st host1)) (heap example_env 0) =
     Some (Some False) \<and>
   map_option (\<lambda>st. map_option r_compromised (map_of st host1)) (heap example_exploited 0) =
     Some (Some True) \<and>
   step example_env (IntArg 0) (sconst (1/2)) =
     Inr ((0, 0, False, \<lparr>success = True, services = [(0, True)], info_os = Some (Some ''linux'')\<rparr>),
          example_env, sconst (1/2)) \<and>
   (9 :: real) = 10 - cost exploit_host1"
proof -
  let ?n = "snd (perform_action example_network exploit_host1)"
  have p: "perform_action (network example_env) exploit_host1 =
     ((True, 10, [(0, True)], Some ''linux''), ?n)"
    using example_perform_1 by (simp add: example_network_env prod_eq_iff)
  have i: "\<not> is_scan exploit_host1" by (simp add: is_scan_def exploit_host1_def)
  note t = C6_update_only_on_successful_exploit [OF example_coerce_1 example_reachable_1
      example_permitted_1 example_draw_1 p example_step_exploit]
  from t have v: "(9 :: real) = 10 - cost exploit_host1" by blast
  have cnd: "\<not> is_scan exploit_host1 \<and> True" using i by simp
  have u: "compromised_subnets example_exploited =
          insert (fst (target exploit_host1)) (compromised_subnets example_env) \<and>
     network example_exploited =
       update_reachable_loop ?n (fst (target exploit_host1)) (address_space example_env) \<and>
     (\<forall>b. reachable (network example_exploited) b \<longleftrightarrow>
                  reachable ?n b \<or>
                  (b \<in> set (address_space example_env) \<and>
                   subnets_connected ?n (fst (target exploit_host1)) (fst b))) \<and>
     n_hosts (network example_exploited) = n_hosts ?n \<and>
     heap example_exploited =
       (case heap example_env (current_state example_env) of
          None \<Rightarrow> heap example_env
        | Some st \<Rightarrow>
            (heap example_env)(current_state example_env \<mapsto>
               State_update st (network example_exploited) (target exploit_host1))) \<and>
     (\<forall>st b. heap example_env (current_state example_env) = Some st \<longrightarrow>
              map_option (\<lambda>st'. map_of st' b) (heap example_exploited (current_state example_env)) =
                Some (if b = target exploit_host1
                      then map_option (\<lambda>_. observe_row (network example_exploited)
                             (target exploit_host1)) (map_of st b)
                      else map_of st b))"
    using t [THEN conjunct2, THEN conjunct2, unfolded if_P [OF cnd]] .
  from u have c: "compromised_subnets example_exploited =
          insert (fst (target exploit_host1)) (compromised_subnets example_env)"
    and r: "\<forall>b. reachable (network example_exploited) b \<longleftrightarrow>
                  reachable ?n b \<or>
                  (b \<in> set (address_space example_env) \<and>
                   subnets_connected ?n (fst (target exploit_host1)) (fst b))"
    and h: "\<forall>st b. heap example_env (current_state example_env) = Some st \<longrightarrow>
              map_option (\<lambda>st'. map_of st' b) (heap example_exploited (current_state example_env)) =
                Some (if b = target exploit_host1
                      then map_option (\<lambda>_. observe_row (network example_exploited)
                             (target exploit_host1)) (map_of st b)
                      else map_of st b)"
    by blast+
  have b2: "\<not> reachable (network example_env) host2"
    and b3: "\<not> reachable ?n host3"
    and b2': "\<not> reachable ?n host2"
    by (simp_all add: reachable_def perform_action_frame example_env_def example_network_def
        host_defs INTERNET_def)
  have c2: "subnets_connected ?n (fst (target exploit_host1)) (fst host2)"
    and c3: "\<not> subnets_connected ?n (fst (target exploit_host1)) (fst host3)"
    by (simp_all add: subnets_connected_def perform_action_frame example_network_def
        example_scenario_def exploit_host1_def host_defs)
  have a: "host2 \<in> set (address_space example_env)" by (simp add: example_env_def)
  from r a c2 have r2: "reachable (network example_exploited) host2" by blast
  from r b3 c3 have r3: "\<not> reachable (network example_exploited) host3" by blast
  have cs: "current_state example_env = 0" by (simp add: example_env_def)
  have h0: "heap example_env 0 = Some (generate_initial_mdp_state example_network)"
    by (simp add: example_env_def)
  have m0: "map_of (generate_initial_mdp_state example_network) host1 =
      Some \<lparr>r_compromised = False, r_reachable = True, r_services = []\<rparr>"
    by (simp add: map_of_generate_initial_mdp_state)
       (simp add: example_network_def example_scenario_def example_host_def compromised_def
          reachable_def host_distinct)
  have t1: "target exploit_host1 = host1" by (simp add: exploit_host1_def)
  have cp: "compromised (network example_exploited) host1"
    by (simp add: compromised_def example_exploited_hosts)
  from h [rule_format, of "generate_initial_mdp_state example_network" host1] h0 cs m0 t1 cp
  have s1: "map_option (\<lambda>st. map_option r_compromised (map_of st host1)) (heap example_exploited 0) =
     Some (Some True)"
    by (cases "heap example_exploited 0") (simp_all add: observe_row_def)
  have s0: "map_option (\<lambda>st. map_option r_compromised (map_of st host1)) (heap example_env 0) =
     Some (Some False)"
    by (simp add: h0 m0)
  from c have c': "compromised_subnets example_exploited = {1, INTERNET}"
    by (simp add: exploit_host1_def example_env_def host_defs)
  from c' v b2 r2 r3 s0 s1 example_step_exploit example_step_scan show ?thesis
    by blast
qed

text \<open>
  Claim C7, as amended. \<open>step\<close> raises for an argument that is neither an Action nor an
  int (the assertion fails), and for an int \<open>i\<close> with \<open>i < - len\<close> or \<open>len \<le> i\<close>, where
  \<open>len\<close> is the length of the action space (\<open>IndexError\<close>). An int with
  \<open>0 \<le> i < len\<close> is replaced by the Action at that index before anything else happens,
  so the step is the step of that Action. An int with \<open>- len \<le> i < 0\<close> does not raise
  either: it is replaced by the Action at index \<open>len + i\<close>, counted from the end. An
  Action argument never raises.
\<close>

theorem C7_step_argument:
  "step env OtherArg rng = Inl AssertionError \<and>
   (i < - int (length (action_space env)) \<or> int (length (action_space env)) \<le> i
      \<longrightarrow> step env (IntArg i) rng = Inl IndexError) \<and>
   (0 \<le> i \<and> i < int (length (action_space env))
      \<longrightarrow> step env (IntArg i) rng = step env (ActionArg (action_space env ! nat i)) rng) \<and>
   (- int (length (action_space env)) \<le> i \<and> i < 0
      \<longrightarrow> step env (IntArg i) rng =
          step env (ActionArg (action_space env ! nat (int (length (action_space env)) + i))) rng) \<and>
   step env (ActionArg a) rng = Inr (step_action env a rng)"
  by (auto simp: step_def coerce_action_def py_index_def Let_def)

text \<open>In the small scenario, with its five actions.\<close>

theorem C7_step_argument_witness:
  "step example_env OtherArg (sconst (1/2)) = Inl AssertionError \<and>
   step example_env (IntArg 5) (sconst (1/2)) = Inl IndexError \<and>
   step example_env (IntArg (- 6)) (sconst (1/2)) = Inl IndexError \<and>
   step example_env (IntArg 1) (sconst (1/2)) =
     step example_env (ActionArg exploit_host1) (sconst (1/2)) \<and>
   step example_env (IntArg (- 1)) (sconst (1/2)) =
     step example_env (ActionArg exploit_host1_service1) (sconst (1/2))"
proof -
  have l: "int (length (action_space example_env)) = 5"
    by (simp add: example_env_def example_actions_def)
  have a1: "action_space example_env ! Suc 0 = exploit_host1"
    and a4: "action_space example_env ! 4 = exploit_host1_service1"
    by (simp_all add: example_env_def example_actions_def)
  from C7_step_argument [of example_env "sconst (1/2)" 5]
    C7_step_argument [of example_env "sconst (1/2)" "- 6"]
    C7_step_argument [of example_env "sconst (1/2)" 1]
    C7_step_argument [of example_env "sconst (1/2)" "- 1"]
  show ?thesis by (simp add: l a1 a4)
qed

text \<open>
  Claim C7 as first stated has \<open>step\<close> raise for every int that is no valid index of
  the action space. The int \<open>-1\<close> is no index between 0 and the length, and in the small
  scenario \<open>step\<close> does not raise for it: it runs the last action of the action space,
  the exploit of service 1 on host 1, which the firewall rejects.
\<close>

theorem C7_negative_index_counterexample:
  "\<not> (0 \<le> (- 1 :: int)) \<and>
   step example_env (IntArg (- 1)) (sconst (1/2)) =
     Inr ((0, - 1, False, \<lparr>success = False, services = [], info_os = None\<rparr>),
          example_env, sconst (1/2))"
proof -
  have c: "coerce_action example_env (IntArg (- 1)) = Inr exploit_host1_service1"
    by (simp add: coerce_action_def py_index_def example_env_def example_actions_def)
  have r: "reachable (network example_env) (target exploit_host1_service1)"
    using example_reachable_1 by (simp add: exploit_host1_service1_def exploit_host1_def)
  have p: "\<not> action_traffic_permitted example_env exploit_host1_service1"
    by (simp add: action_traffic_permitted_def traffic_permitted_def is_scan_def
        exploit_host1_service1_def example_env_def example_network_def example_scenario_def
        INTERNET_def host_defs)
  have "step_action example_env exploit_host1_service1 (sconst (1/2)) =
     ((0, - 1, False, \<lparr>success = False, services = [], info_os = None\<rparr>),
          example_env, sconst (1/2))"
    using r p
    by (simp add: step_action_def rejected_info_def)
       (simp add: exploit_host1_service1_def example_env_def)
  with c show ?thesis by (simp add: step_def)
qed

text \<open>
  Claim C8, as amended. Constructing an environment with a mode outside the supported
  set, which holds \<open>MDP\<close> only, fails at construction with the assertion error; this
  is the failure for \<open>POMDP\<close> as for any other unsupported mode. Construction never
  raises \<open>NotImplementedError\<close>: the mode check comes first, and
  \<open>_generate_initial_state\<close>, which raises it for every mode other than \<open>MDP\<close>, is
  reached with \<open>MDP\<close> only.
\<close>

theorem C8_mode_check:
  "(m \<notin> set env_modes \<longrightarrow> NASimEnv_init sc m = Inl AssertionError) \<and>
   (m \<in> set env_modes \<longrightarrow> m = ''MDP'' \<and> (\<exists>env. NASimEnv_init sc m = Inr env)) \<and>
   NASimEnv_init sc m \<noteq> Inl NotImplementedError \<and>
   (m \<noteq> ''MDP'' \<longrightarrow> generate_initial_state m n = Inl NotImplementedError)"
  by (simp add: NASimEnv_init_def env_modes_def generate_initial_state_def Let_def)

text \<open>In the small scenario, for the modes \<open>POMDP\<close> and \<open>MDP\<close>.\<close>

theorem C8_mode_check_witness:
  "''POMDP'' \<notin> set env_modes \<and>
   NASimEnv_init example_scenario ''POMDP'' = Inl AssertionError \<and>
   generate_initial_state ''POMDP'' example_network = Inl NotImplementedError \<and>
   ''MDP'' \<in> set env_modes \<and>
   NASimEnv_init example_scenario ''MDP'' = Inr example_env"
  using C8_mode_check [of "''POMDP''" example_scenario example_network]
    C8_mode_check [of "''MDP''" example_scenario example_network] example_env_init
  by (simp add: env_modes_def)

text \<open>
  Claim C8 as first stated asks for a not-implemented failure of its own when the
  \<open>POMDP\<close> mode is selected. Construction with \<open>POMDP\<close> fails with the assertion
  error, the same as for the unsupported mode \<open>ABC\<close>.
\<close>

theorem C8_pomdp_counterexample:
  "NASimEnv_init example_scenario ''POMDP'' = Inl AssertionError \<and>
   NASimEnv_init example_scenario ''POMDP'' = NASimEnv_init example_scenario ''ABC'' \<and>
   NASimEnv_init example_scenario ''POMDP'' \<noteq> Inl NotImplementedError"
  by (simp add: NASimEnv_init_def env_modes_def)

text \<open>
  Claim C9. \<open>reset\<close> and \<open>step\<close> return the reference held in the field
  \<open>current_state\<close>; neither assigns the field, and neither allocates a State: the
  domain of the store is unchanged (\<open>reset\<close> does not touch the store at all). The same
  holds after any sequence of calls. The reference is the one allocated at
  construction, the only object in the store.
\<close>

theorem C9_state_alias:
  "fst (reset env) = current_state env \<and>
   current_state (snd (reset env)) = current_state env \<and>
   heap (snd (reset env)) = heap env \<and>
   (step env x rng = Inr ((obs, reward, done, nfo), env', rng') \<longrightarrow>
      obs = current_state env \<and> current_state env' = current_state env \<and>
      dom (heap env') = dom (heap env)) \<and>
   current_state (fst (run env rng cs)) = current_state env \<and>
   dom (heap (fst (run env rng cs))) = dom (heap env) \<and>
   (NASimEnv_init sc m = Inr env0 \<longrightarrow> dom (heap env0) = {current_state env0})"
proof (intro conjI impI)
  assume "step env x rng = Inr ((obs, reward, done, nfo), env', rng')"
  then obtain a where s: "step_action env a rng = ((obs, reward, done, nfo), env', rng')"
    by (auto simp: step_Inr_iff)
  have "obs = fst (fst (step_action env a rng))" and "env' = fst (snd (step_action env a rng))"
    by (simp_all add: s)
  then show "obs = current_state env" and "current_state env' = current_state env"
    and "dom (heap env') = dom (heap env)"
    by (simp_all add: step_action_frame)
next
  assume "NASimEnv_init sc m = Inr env0"
  then show "dom (heap env0) = {current_state env0}"
    by (auto simp: NASimEnv_init_def generate_initial_state_def reset_def Let_def
        split: if_splits)
qed (simp_all add: reset_def Let_def run_frame)

text \<open>In the small scenario, for construction, the successful exploit and a following
  \<open>reset\<close>.\<close>

theorem C9_state_alias_witness:
  "NASimEnv_init example_scenario ''MDP'' = Inr example_env \<and>
   dom (heap example_env) = {current_state example_env} \<and>
   step example_env (IntArg 1) (sconst (1/2)) =
     Inr ((0, 9, True, \<lparr>success = True, services = [(0, True)], info_os = Some (Some ''linux'')\<rparr>),
          example_exploited, sconst (1/2)) \<and>
   current_state example_env = 0 \<and>
   current_state example_exploited = current_state example_env \<and>
   dom (heap example_exploited) = dom (heap example_env) \<and>
   fst (reset example_exploited) = current_state example_env"
  using C9_state_alias [of example_env "IntArg 1" "sconst (1/2)" 0 9 True
      "\<lparr>success = True, services = [(0, True)], info_os = Some (Some ''linux'')\<rparr>"
      example_exploited "sconst (1/2)" "[]" example_scenario "''MDP''" example_env]
    C9_state_alias [of example_exploited]
    example_step_exploit example_env_init
  by simp

text \<open>
  Claim C10. \<open>get_best_possible_score\<close> returns the network's total value of the
  sensitive hosts minus the network's minimal steps. It is a function of the
  environment that returns a number and no new environment.
\<close>

theorem C10_best_possible_score:
  "get_best_possible_score env =
     get_total_sensitive_host_value (network env) - real_of_int (get_minimal_steps (network env)) \<and>
   get_best_possible_score env =
     (\<Sum>h \<leftarrow> get_sensitive_hosts (network env). host_value (network env) h)
       - real_of_int (n_minimal_steps (network env))"
  by (simp add: get_best_possible_score_def get_total_sensitive_host_value_def
      get_minimal_steps_def)

text \<open>In the small scenario: value 10 of the sensitive host, one minimal step.\<close>

theorem C10_best_possible_score_witness:
  "get_best_possible_score example_env = 9"
proof -
  have v: "get_total_sensitive_host_value (network example_env) = 10"
    by (simp add: get_total_sensitive_host_value_def example_network_env example_sensitive_hosts)
       (simp add: host_value_def example_network_def example_scenario_def example_host_def
          host_distinct)
  have m: "get_minimal_steps (network example_env) = 1"
    by (simp add: get_minimal_steps_def example_network_env example_network_def)
  from C10_best_possible_score [of example_env] show ?thesis
    by (simp add: v m)
qed

end
